theory Spec2Isabelle
  imports Main "HOL-Library.Word"
begin

unbundle bit_operations_syntax

section \<open>The JPEG bit-depth scanner of \<^verbatim>\<open>Dicom.Jpeg/JpegHelper.h\<close>\<close>

subsection \<open>Data\<close>

type_synonym byte = "8 word"
type_synonym ushort = "16 word"

text \<open>
  The exceptions a scan can end with. The source throws \<^verbatim>\<open>DicomCodecException\<close> with
  two different messages; the reads and seeks of the stream raise the others.
  \<^item> \<open>SyntaxError\<close>: "Unable to determine bit depth: JPEG syntax error!" (line 124);
  \<^item> \<open>NotFoundError\<close>: "Unable to determine bit depth: no JPEG SOF marker found!" (line 127);
  \<^item> \<open>EndOfStreamException\<close>: a read past the end of the buffer;
  \<^item> \<open>IOException\<close>: a seek to a position before the beginning of the stream;
  \<^item> \<open>ArgumentOutOfRangeException\<close>: \<^verbatim>\<open>Fragments[0]\<close> of pixel data without fragments.
\<close>

datatype exn =
    SyntaxError
  | NotFoundError
  | EndOfStreamException
  | IOException
  | ArgumentOutOfRangeException

text \<open>
  Modelled from the spec: \<^verbatim>\<open>DcmPixelData\<close>, \<^verbatim>\<open>ByteBuffer\<close> and its \<^verbatim>\<open>Stream\<close> are
  declared outside \<^verbatim>\<open>JpegHelper.h\<close>. The pixel data is the list of its fragments, each a
  finite byte sequence; the scan reads the first one through a cursor of its own, which
  starts at the first byte.
\<close>

record DcmPixelData =
  Fragments :: "byte list list"

subsection \<open>The byte cursor\<close>

text \<open>
  Modelled from the spec: the stream and the big-endian reader (\<^verbatim>\<open>MemoryStream\<close>,
  \<^verbatim>\<open>EndianBinaryReader\<close>) are declared outside \<^verbatim>\<open>JpegHelper.h\<close>. The cursor is a
  finite byte sequence \<open>buf\<close> with a read position \<open>pos\<close>; every operation takes the
  position and returns the new one. A read past the end of the buffer fails
  (the spec's UnderlyingReadError); a relative seek may go past the end, and fails only
  when it would leave the position before the beginning.
\<close>

definition ReadByte :: "byte list \<Rightarrow> nat \<Rightarrow> exn + (byte \<times> nat)" where
  "ReadByte buf pos =
     (if pos < length buf then Inr (buf ! pos, pos + 1) else Inl EndOfStreamException)"

definition ReadUInt16 :: "byte list \<Rightarrow> nat \<Rightarrow> exn + (ushort \<times> nat)" where
  "ReadUInt16 buf pos =
     (if pos + 2 \<le> length buf
      then Inr (push_bit 8 (ucast (buf ! pos)) OR ucast (buf ! (pos + 1)), pos + 2)
      else Inl EndOfStreamException)"

definition Seek :: "nat \<Rightarrow> int \<Rightarrow> exn + nat" where
  "Seek pos offset =
     (if int pos + offset < 0 then Inl IOException else Inr (nat (int pos + offset)))"

subsection \<open>The marker classes of the switch\<close>

text \<open>The case labels of the switch, group by group, in the order of the source.\<close>

definition SOF_Huffman :: "ushort set" where
  "SOF_Huffman = {0xffc0, 0xffc1, 0xffc2, 0xffc3, 0xffc5, 0xffc6, 0xffc7}"

definition JPG_Extension :: "ushort set" where
  "JPG_Extension = {0xffc8}"

definition SOF_Arithmetic :: "ushort set" where
  "SOF_Arithmetic = {0xffc9, 0xffca, 0xffcb, 0xffcd, 0xffce, 0xffcf}"

definition DHT_DAC :: "ushort set" where
  "DHT_DAC = {0xffc4, 0xffcc}"

definition RST_SOI_EOI :: "ushort set" where
  "RST_SOI_EOI =
     {0xffd0, 0xffd1, 0xffd2, 0xffd3, 0xffd4, 0xffd5, 0xffd6, 0xffd7, 0xffd8, 0xffd9}"

definition SOS_to_COM :: "ushort set" where
  "SOS_to_COM =
     {0xffda, 0xffdb, 0xffdc, 0xffdd, 0xffde, 0xffdf,
      0xffe0, 0xffe1, 0xffe2, 0xffe3, 0xffe4, 0xffe5, 0xffe6, 0xffe7,
      0xffe8, 0xffe9, 0xffea, 0xffeb, 0xffec, 0xffed, 0xffee, 0xffef,
      0xfff0, 0xfff1, 0xfff2, 0xfff3, 0xfff4, 0xfff5, 0xfff6, 0xfff7,
      0xfff8, 0xfff9, 0xfffa, 0xfffb, 0xfffc, 0xfffd,
      0xfffe}"

definition TEM :: "ushort set" where
  "TEM = {0xff01}"

text \<open>The Start-Of-Frame markers, and the markers followed by a segment length.\<close>

definition SOF_markers :: "ushort set" where
  "SOF_markers = SOF_Huffman \<union> SOF_Arithmetic"

definition length_prefixed_markers :: "ushort set" where
  "length_prefixed_markers = JPG_Extension \<union> DHT_DAC \<union> SOS_to_COM"

definition enumerated_markers :: "ushort set" where
  "enumerated_markers =
     SOF_Huffman \<union> JPG_Extension \<union> SOF_Arithmetic \<union> DHT_DAC \<union> RST_SOI_EOI \<union> SOS_to_COM \<union> TEM"

subsection \<open>One iteration of the scan loop\<close>

text \<open>An iteration either returns the bit depth or goes on at a new position.\<close>

datatype iteration = Return int | Continue nat

text \<open>\<^verbatim>\<open>ms->Seek(2, SeekOrigin::Current); return (int)br->ReadByte();\<close>\<close>

definition ReadPrecision :: "byte list \<Rightarrow> nat \<Rightarrow> exn + iteration" where
  "ReadPrecision buf pos =
     (case Seek pos 2 of
        Inl e \<Rightarrow> Inl e
      | Inr p \<Rightarrow>
          (case ReadByte buf p of
             Inl e \<Rightarrow> Inl e
           | Inr (b, _) \<Rightarrow> Inr (Return (uint b))))"

text \<open>\<^verbatim>\<open>ms->Seek(br->ReadUInt16() - 2, SeekOrigin::Current); break;\<close>
  The length is an unsigned short; the subtraction is done on \<^verbatim>\<open>int\<close>.\<close>

definition SkipSegment :: "byte list \<Rightarrow> nat \<Rightarrow> exn + iteration" where
  "SkipSegment buf pos =
     (case ReadUInt16 buf pos of
        Inl e \<Rightarrow> Inl e
      | Inr (len, p) \<Rightarrow>
          (case Seek p (uint len - 2) of
             Inl e \<Rightarrow> Inl e
           | Inr p' \<Rightarrow> Inr (Continue p')))"

text \<open>The default branch: two more bytes are read and tested.\<close>

definition ReservedCheck :: "byte list \<Rightarrow> nat \<Rightarrow> exn + iteration" where
  "ReservedCheck buf pos =
     (case ReadByte buf pos of
        Inl e \<Rightarrow> Inl e
      | Inr (b1, p) \<Rightarrow>
          (case ReadByte buf p of
             Inl e \<Rightarrow> Inl e
           | Inr (b2, p') \<Rightarrow>
               if uint b1 = 0xff \<and> uint b2 > 2 \<and> uint b2 \<le> 0xbf
               then Inr (Continue p')
               else Inl SyntaxError))"

text \<open>The body of the loop: read the marker, then the switch.\<close>

definition ScanStep :: "byte list \<Rightarrow> nat \<Rightarrow> exn + iteration" where
  "ScanStep buf pos =
     (case ReadUInt16 buf pos of
        Inl e \<Rightarrow> Inl e
      | Inr (marker, p) \<Rightarrow>
          if marker \<in> SOF_Huffman then ReadPrecision buf p
          else if marker \<in> JPG_Extension then SkipSegment buf p
          else if marker \<in> SOF_Arithmetic then ReadPrecision buf p
          else if marker \<in> DHT_DAC then SkipSegment buf p
          else if marker \<in> RST_SOI_EOI then Inr (Continue p)
          else if marker \<in> SOS_to_COM then SkipSegment buf p
          else if marker \<in> TEM then Inr (Continue p)
          else ReservedCheck buf p)"

subsection \<open>The scan loop\<close>

text \<open>\<^verbatim>\<open>while (ms->Position < length) { ... }\<close>, then the throw of line 127.\<close>

function ScanLoop :: "byte list \<Rightarrow> nat \<Rightarrow> exn + int" where
  "ScanLoop buf pos =
     (if pos < length buf
      then (case ScanStep buf pos of
              Inl e \<Rightarrow> Inl e
            | Inr (Return depth) \<Rightarrow> Inr depth
            | Inr (Continue p) \<Rightarrow> ScanLoop buf p)
      else Inl NotFoundError)"
  by pat_completeness auto

definition ScanJpegForBitDepthInternal :: "DcmPixelData \<Rightarrow> exn + int" where
  "ScanJpegForBitDepthInternal pixelData =
     (case Fragments pixelData of
        [] \<Rightarrow> Inl ArgumentOutOfRangeException
      | buffer # _ \<Rightarrow> ScanLoop buffer 0)"

text \<open>
  The positions at which a scan pass reads a marker: \<open>scan_reaches buf p q\<close> holds when
  the loop, entered at position \<open>p\<close>, comes back to its head at position \<open>q\<close> after
  finitely many iterations, none of which returned or failed.
\<close>

inductive scan_reaches :: "byte list \<Rightarrow> nat \<Rightarrow> nat \<Rightarrow> bool" for buf :: "byte list" where
  here: "scan_reaches buf p p"
| iterate: "p < length buf \<Longrightarrow> ScanStep buf p = Inr (Continue p') \<Longrightarrow> scan_reaches buf p' q
            \<Longrightarrow> scan_reaches buf p q"

code_pred scan_reaches .

subsection \<open>The stream object\<close>



subsection \<open>The public entry point\<close>

text \<open>
  \<^verbatim>\<open>ScanHeaderForBitDepth\<close>: the internal scanner inside \<^verbatim>\<open>try\<close>, and in
  \<^verbatim>\<open>catch (...)\<close> the precision scan of a new \<^verbatim>\<open>Jpeg8Codec\<close>.

  Modelled from the spec: \<^verbatim>\<open>Jpeg8Codec::ScanHeaderForPrecision\<close> is declared in
  \<^verbatim>\<open>JpegCodec.h\<close>, outside the source; it is the spec's fallback detector, an
  external collaborator taken here as a parameter. It is given the pixel data and may
  fail with an error of its own type \<open>'e\<close>. Its effects are kept in a state \<open>'w\<close> that
  every invocation takes and returns, so that an invocation shows in the state.
\<close>

definition ScanHeaderForBitDepth ::
    "('w \<Rightarrow> DcmPixelData \<Rightarrow> ('e + int) \<times> 'w) \<Rightarrow> 'w \<Rightarrow> DcmPixelData \<Rightarrow> ('e + int) \<times> 'w" where
  "ScanHeaderForBitDepth ScanHeaderForPrecision w pixelData =
     (case ScanJpegForBitDepthInternal pixelData of
        Inr depth \<Rightarrow> (Inr depth, w)
      | Inl _ \<Rightarrow> ScanHeaderForPrecision w pixelData)"

section \<open>Properties\<close>

subsection \<open>The cursor operations\<close>

lemma ReadUInt16_Inr:
  "ReadUInt16 buf pos = Inr (m, p) \<Longrightarrow> p = pos + 2 \<and> pos + 2 \<le> length buf"
  by (auto simp: ReadUInt16_def split: if_splits)

lemma ReadByte_Inr:
  "ReadByte buf pos = Inr (b, p) \<Longrightarrow> p = pos + 1 \<and> pos < length buf \<and> b = buf ! pos"
  by (auto simp: ReadByte_def split: if_splits)

lemma Seek_forward: "Seek pos (int n) = Inr (pos + n)"
  by (simp add: Seek_def nat_add_distrib)

lemma Seek_skip: "Seek (pos + 2) (uint (len :: ushort) - 2) = Inr (pos + unat len)"
proof -
  have "int (pos + 2) + (uint len - 2) = int (pos + unat len)"
    by simp
  then show ?thesis
    unfolding Seek_def by (simp del: of_nat_add)
qed

lemma SkipSegment_eq:
  assumes "ReadUInt16 buf pos = Inr (len, p)"
  shows "SkipSegment buf pos = Inr (Continue (pos + unat len))"
proof -
  have "p = pos + 2"
    using ReadUInt16_Inr [OF assms] by simp
  with assms show ?thesis
    by (simp add: SkipSegment_def Seek_skip [unfolded add_2_eq_Suc'])
qed

lemma SkipSegment_Continue:
  assumes "SkipSegment buf pos = Inr (Continue p')"
  shows "pos \<le> p'"
proof -
  from assms obtain len p where r: "ReadUInt16 buf pos = Inr (len, p)"
    by (auto simp: SkipSegment_def split: sum.splits)
  from assms SkipSegment_eq [OF r] show ?thesis
    by simp
qed

lemma SkipSegment_not_Return: "SkipSegment buf pos \<noteq> Inr (Return d)"
  by (auto simp: SkipSegment_def split: sum.splits)

lemma ReadPrecision_eq:
  "ReadPrecision buf pos =
     (if pos + 2 < length buf then Inr (Return (uint (buf ! (pos + 2))))
      else Inl EndOfStreamException)"
  using Seek_forward [of pos 2] by (simp add: ReadPrecision_def ReadByte_def)

lemma ReadPrecision_not_Continue: "ReadPrecision buf pos \<noteq> Inr (Continue p')"
  by (simp add: ReadPrecision_eq)

lemma ReservedCheck_eq:
  "ReservedCheck buf pos =
     (if pos + 2 \<le> length buf
      then (if uint (buf ! pos) = 0xff \<and> 2 < uint (buf ! (pos + 1)) \<and> uint (buf ! (pos + 1)) \<le> 0xbf
            then Inr (Continue (pos + 2)) else Inl SyntaxError)
      else Inl EndOfStreamException)"
  by (auto simp: ReservedCheck_def ReadByte_def)

lemma ReservedCheck_Continue:
  "ReservedCheck buf pos = Inr (Continue p') \<Longrightarrow> p' = pos + 2"
  by (simp add: ReservedCheck_eq split: if_splits)

lemma ReservedCheck_not_Return: "ReservedCheck buf pos \<noteq> Inr (Return d)"
  by (simp add: ReservedCheck_eq)

lemma SOF_Arithmetic_disjoint:
  "m \<in> SOF_Arithmetic \<Longrightarrow> m \<notin> SOF_Huffman \<and> m \<notin> JPG_Extension"
  by (auto simp: SOF_Huffman_def JPG_Extension_def SOF_Arithmetic_def)

lemma DHT_DAC_disjoint:
  "m \<in> DHT_DAC \<Longrightarrow> m \<notin> SOF_Huffman \<and> m \<notin> JPG_Extension \<and> m \<notin> SOF_Arithmetic"
  by (auto simp: SOF_Huffman_def JPG_Extension_def SOF_Arithmetic_def DHT_DAC_def)

lemma JPG_Extension_disjoint: "m \<in> JPG_Extension \<Longrightarrow> m \<notin> SOF_Huffman"
  by (auto simp: SOF_Huffman_def JPG_Extension_def)

lemma SOS_to_COM_disjoint:
  "m \<in> SOS_to_COM \<Longrightarrow>
     m \<notin> SOF_Huffman \<and> m \<notin> JPG_Extension \<and> m \<notin> SOF_Arithmetic \<and> m \<notin> DHT_DAC \<and> m \<notin> RST_SOI_EOI"
  unfolding SOS_to_COM_def
  by (auto simp: SOF_Huffman_def JPG_Extension_def SOF_Arithmetic_def DHT_DAC_def RST_SOI_EOI_def)

lemma ScanStep_SOF:
  assumes "ReadUInt16 buf pos = Inr (m, p)" and "m \<in> SOF_markers"
  shows "ScanStep buf pos = ReadPrecision buf p"
  using assms SOF_Arithmetic_disjoint [of m]
  by (auto simp: ScanStep_def SOF_markers_def)

lemma ScanStep_length_prefixed:
  assumes "ReadUInt16 buf pos = Inr (m, p)" and "m \<in> length_prefixed_markers"
  shows "ScanStep buf pos = SkipSegment buf p"
  using assms JPG_Extension_disjoint [of m] DHT_DAC_disjoint [of m] SOS_to_COM_disjoint [of m]
  by (auto simp: ScanStep_def length_prefixed_markers_def)

lemma ScanStep_default:
  assumes "ReadUInt16 buf pos = Inr (m, p)" and "m \<notin> enumerated_markers"
  shows "ScanStep buf pos = ReservedCheck buf p"
  using assms by (simp add: ScanStep_def enumerated_markers_def)

lemma ScanStep_Continue_after_marker:
  assumes "ReadUInt16 buf pos = Inr (m, p)" and "ScanStep buf pos = Inr (Continue p')"
  shows "p \<le> p'"
proof -
  from assms have
    "SkipSegment buf p = Inr (Continue p') \<or> p' = p \<or> ReservedCheck buf p = Inr (Continue p')"
    by (auto simp: ScanStep_def ReadPrecision_not_Continue split: if_splits)
  then show ?thesis
    by (auto dest: SkipSegment_Continue ReservedCheck_Continue)
qed

lemma ScanStep_Return:
  assumes "ScanStep buf pos = Inr (Return d)"
  shows "\<exists>m. ReadUInt16 buf pos = Inr (m, pos + 2) \<and> m \<in> SOF_markers
           \<and> pos + 4 < length buf \<and> d = uint (buf ! (pos + 4))"
proof -
  from assms obtain m where m: "ReadUInt16 buf pos = Inr (m, pos + 2)"
    by (auto simp: ScanStep_def split: sum.splits dest: ReadUInt16_Inr)
  from assms m have sof: "m \<in> SOF_markers" and rp: "ReadPrecision buf (pos + 2) = Inr (Return d)"
    by (auto simp: ScanStep_def SOF_markers_def SkipSegment_not_Return ReservedCheck_not_Return
             split: if_splits)
  from rp have "pos + 4 < length buf \<and> d = uint (buf ! (pos + 4))"
    unfolding ReadPrecision_eq add.assoc by (auto split: if_splits)
  with m sof show ?thesis
    by blast
qed

lemma ScanStep_Continue:
  assumes "ScanStep buf pos = Inr (Continue p')"
  shows "pos + 2 \<le> p'"
proof -
  from assms obtain m where m: "ReadUInt16 buf pos = Inr (m, pos + 2)"
    by (auto simp: ScanStep_def split: sum.splits dest: ReadUInt16_Inr)
  from ScanStep_Continue_after_marker [OF m assms] show ?thesis .
qed

subsection \<open>The loop\<close>

termination ScanLoop
proof (relation "measure (\<lambda>(buf, pos). length buf - pos)")
  show "wf (measure (\<lambda>(buf, pos). length buf - pos))"
    by simp
next
  fix buf :: "byte list" and pos :: nat and x :: iteration and p :: nat
  assume "pos < length buf" and "ScanStep buf pos = Inr x" and "x = Continue p"
  then have "pos + 2 \<le> p"
    using ScanStep_Continue by simp
  with \<open>pos < length buf\<close>
  show "((buf, p), (buf, pos)) \<in> measure (\<lambda>(buf, pos). length buf - pos)"
    by simp
qed

declare ScanLoop.simps [simp del]

lemma ScanLoop_end: "length buf \<le> pos \<Longrightarrow> ScanLoop buf pos = Inl NotFoundError"
  by (simp add: ScanLoop.simps)

lemma ScanLoop_Return:
  "pos < length buf \<Longrightarrow> ScanStep buf pos = Inr (Return d) \<Longrightarrow> ScanLoop buf pos = Inr d"
  by (simp add: ScanLoop.simps [of buf pos])

lemma ScanLoop_fail:
  "pos < length buf \<Longrightarrow> ScanStep buf pos = Inl e \<Longrightarrow> ScanLoop buf pos = Inl e"
  by (simp add: ScanLoop.simps [of buf pos])

lemma ScanLoop_Continue:
  "pos < length buf \<Longrightarrow> ScanStep buf pos = Inr (Continue p) \<Longrightarrow> ScanLoop buf pos = ScanLoop buf p"
  by (simp add: ScanLoop.simps [of buf pos])

lemma scan_reaches_ScanLoop: "scan_reaches buf p q \<Longrightarrow> ScanLoop buf p = ScanLoop buf q"
  by (induction rule: scan_reaches.induct) (simp_all add: ScanLoop_Continue)

lemma scan_reaches_le: "scan_reaches buf p q \<Longrightarrow> p \<le> q"
proof (induction rule: scan_reaches.induct)
  case (here p)
  show ?case by simp
next
  case (iterate p p' q)
  from ScanStep_Continue [OF iterate.hyps(2)] iterate.IH show ?case
    by simp
qed

text \<open>Every scan pass is finite: it ends at the end of the stream, in a failure or in a return.\<close>

lemma scan_ends:
  "\<exists>q. scan_reaches buf pos q \<and>
     (length buf \<le> q \<or> (q < length buf \<and> (\<forall>p. ScanStep buf q \<noteq> Inr (Continue p))))"
proof (induction buf pos rule: ScanLoop.induct)
  case (1 buf pos)
  show ?case
  proof (cases "pos < length buf")
    case False
    then have "length buf \<le> pos" by simp
    with scan_reaches.here [of buf pos] show ?thesis by blast
  next
    case inside: True
    show ?thesis
    proof (cases "\<exists>p. ScanStep buf pos = Inr (Continue p)")
      case False
      with inside scan_reaches.here [of buf pos] show ?thesis by blast
    next
      case True
      then obtain p where p: "ScanStep buf pos = Inr (Continue p)" ..
      from "1.IH" [OF inside p refl] obtain q where
        q: "scan_reaches buf p q"
           "length buf \<le> q \<or> (q < length buf \<and> (\<forall>p. ScanStep buf q \<noteq> Inr (Continue p)))"
        by blast
      from scan_reaches.iterate [OF inside p q(1)] q(2) show ?thesis by blast
    qed
  qed
qed

subsection \<open>The loop on the stream object\<close>

text \<open>The three cursor operations of an iteration that returns.\<close>

lemma ScanStep_Return_cursor:
  assumes "ScanStep buf pos = Inr (Return d)"
  shows "\<exists>m b. ReadUInt16 buf pos = Inr (m, pos + 2) \<and> Seek (pos + 2) 2 = Inr (pos + 4)
           \<and> ReadByte buf (pos + 4) = Inr (b, pos + 5) \<and> d = uint b"
proof -
  from ScanStep_Return [OF assms] obtain m where
    m: "ReadUInt16 buf pos = Inr (m, pos + 2)" and len: "pos + 4 < length buf"
    and d: "d = uint (buf ! (pos + 4))"
    by blast
  have "Seek (pos + 2) 2 = Inr (pos + 4)"
    using Seek_forward [of "pos + 2" 2] by simp
  moreover from len have "ReadByte buf (pos + 4) = Inr (buf ! (pos + 4), pos + 5)"
    by (simp add: ReadByte_def)
  ultimately show ?thesis
    using m d by blast
qed





subsection \<open>Reading markers; the marker classes as ranges\<close>

lemma ReadUInt16_Cons2: "ReadUInt16 (a # b # rest) 0 = Inr (push_bit 8 (ucast a) OR ucast b, 2)"
  by (simp add: ReadUInt16_def)

lemma ReadUInt16_append:
  "ReadUInt16 (xs @ a # b # ys) (length xs) = Inr (push_bit 8 (ucast a) OR ucast b, length xs + 2)"
  by (simp add: ReadUInt16_def nth_append)

lemma ushort_of_bytes:
  "push_bit 8 (ucast (ucast (drop_bit 8 N) :: byte)) OR ucast (ucast N :: byte) = (N :: ushort)"
  by (rule bit_word_eqI) (auto simp: bit_simps)

lemma uint_byte_ff: "uint (b :: byte) = 0xff \<longleftrightarrow> b = 0xff"
  by (simp add: word_uint_eq_iff)

lemma SOF_code_marker:
  assumes "c \<in> {0xc0, 0xc1, 0xc2, 0xc3, 0xc5, 0xc6, 0xc7, 0xc9, 0xca, 0xcb, 0xcd, 0xce, 0xcf :: byte}"
  shows "(push_bit 8 (ucast (0xff :: byte)) OR ucast c :: ushort) \<in> SOF_markers"
  using assms by (auto simp: SOF_markers_def SOF_Huffman_def SOF_Arithmetic_def)

lemma enumerated_high_byte: "m \<in> enumerated_markers \<Longrightarrow> drop_bit 8 m = 0xff"
  unfolding enumerated_markers_def SOF_Huffman_def JPG_Extension_def SOF_Arithmetic_def
    DHT_DAC_def RST_SOI_EOI_def SOS_to_COM_def TEM_def
  by (elim UnE insertE emptyE) simp_all

lemma ushort_in_range:
  fixes m lo hi :: ushort
  assumes "lo \<le> m" and "m \<le> hi"
  shows "m \<in> of_nat ` set [unat lo ..< Suc (unat hi)]"
proof -
  from assms have "unat m \<in> set [unat lo ..< Suc (unat hi)]"
    unfolding set_upt atLeastLessThan_iff by (simp add: word_le_nat_alt)
  moreover have "m = of_nat (unat m)"
    by simp
  ultimately show ?thesis
    by (rule image_eqI [rotated])
qed

lemma SOF_markers_iff:
  "m \<in> SOF_markers \<longleftrightarrow>
     (0xffc0 \<le> m \<and> m \<le> 0xffc3) \<or> (0xffc5 \<le> m \<and> m \<le> 0xffc7) \<or>
     (0xffc9 \<le> m \<and> m \<le> 0xffcb) \<or> (0xffcd \<le> m \<and> m \<le> 0xffcf)"
  (is "?l \<longleftrightarrow> ?r")
proof
  assume ?l
  then show ?r
    unfolding SOF_markers_def SOF_Huffman_def SOF_Arithmetic_def
    by (elim UnE insertE emptyE) simp_all
next
  assume ?r
  then show ?l
    using ushort_in_range [of "0xffc0" m "0xffc3"] ushort_in_range [of "0xffc5" m "0xffc7"]
      ushort_in_range [of "0xffc9" m "0xffcb"] ushort_in_range [of "0xffcd" m "0xffcf"]
    unfolding SOF_markers_def SOF_Huffman_def SOF_Arithmetic_def
    by (auto simp: upt_rec_numeral)
qed

lemma length_prefixed_markers_iff:
  "m \<in> length_prefixed_markers \<longleftrightarrow>
     m = 0xffc8 \<or> m = 0xffc4 \<or> m = 0xffcc \<or> (0xffda \<le> m \<and> m \<le> 0xfffe)"
  (is "?l \<longleftrightarrow> ?r")
proof
  assume ?l
  then show ?r
    unfolding length_prefixed_markers_def JPG_Extension_def DHT_DAC_def SOS_to_COM_def
    by (elim UnE insertE emptyE) simp_all
next
  assume ?r
  then show ?l
    using ushort_in_range [of "0xffda" m "0xfffe"]
    unfolding length_prefixed_markers_def JPG_Extension_def DHT_DAC_def SOS_to_COM_def
    by (auto simp: upt_rec_numeral)
qed

subsection \<open>The outcome of an iteration, class by class\<close>

lemma ScanLoop_SOF:
  assumes "ReadUInt16 buf pos = Inr (m, p)" and "m \<in> SOF_markers"
  shows "ScanLoop buf pos =
     (if pos + 4 < length buf then Inr (uint (buf ! (pos + 4))) else Inl EndOfStreamException)"
proof -
  have p: "p = pos + 2" and inside: "pos < length buf"
    using ReadUInt16_Inr [OF assms(1)] by simp_all
  have "ScanStep buf pos = ReadPrecision buf (pos + 2)"
    using ScanStep_SOF [OF assms] p by simp
  then have "ScanStep buf pos =
      (if pos + 4 < length buf then Inr (Return (uint (buf ! (pos + 4))))
       else Inl EndOfStreamException)"
    unfolding ReadPrecision_eq add.assoc by simp
  with inside show ?thesis
    by (simp add: ScanLoop_Return ScanLoop_fail)
qed

lemma ScanLoop_length_prefixed:
  assumes "ReadUInt16 buf pos = Inr (m, p)" and "m \<in> length_prefixed_markers"
    and "ReadUInt16 buf p = Inr (N, p2)"
  shows "ScanStep buf pos = Inr (Continue (p + unat N))"
    and "ScanLoop buf pos = ScanLoop buf (p + unat N)"
proof -
  have inside: "pos < length buf"
    using ReadUInt16_Inr [OF assms(1)] by simp
  show step: "ScanStep buf pos = Inr (Continue (p + unat N))"
    using ScanStep_length_prefixed [OF assms(1,2)] SkipSegment_eq [OF assms(3)] by simp
  show "ScanLoop buf pos = ScanLoop buf (p + unat N)"
    by (rule ScanLoop_Continue [OF inside step])
qed

lemma SOF0_after_prefix:
  "ScanLoop (pre @ 0xff # 0xc0 # l1 # l2 # P # rest) (length pre) = Inr (uint P)"
proof -
  let ?buf = "pre @ 0xff # 0xc0 # l1 # l2 # P # rest"
  have r: "ReadUInt16 ?buf (length pre) = Inr (0xffc0, length pre + 2)"
    using ReadUInt16_append [of pre "0xff" "0xc0" "l1 # l2 # P # rest"] by simp
  have m: "(0xffc0 :: ushort) \<in> SOF_markers"
    by (simp add: SOF_markers_def SOF_Huffman_def)
  have "?buf ! (length pre + 4) = P"
    by (simp add: nth_append)
  with ScanLoop_SOF [OF r m] show ?thesis
    by simp
qed

lemma ScanStep_unenumerated:
  assumes "ReadUInt16 buf pos = Inr (m, p)" and "m \<notin> enumerated_markers"
  shows "ScanStep buf pos =
     (if pos + 4 \<le> length buf
      then (if uint (buf ! (pos + 2)) = 0xff \<and> 2 < uint (buf ! (pos + 3)) \<and> uint (buf ! (pos + 3)) \<le> 0xbf
            then Inr (Continue (pos + 4)) else Inl SyntaxError)
      else Inl EndOfStreamException)"
proof -
  have p: "p = pos + 2"
    using ReadUInt16_Inr [OF assms(1)] by simp
  have e: "(2 :: nat) + 2 = 4" "(2 :: nat) + 1 = 3"
    by simp_all
  show ?thesis
    by (simp only: ScanStep_default [OF assms] p ReservedCheck_eq add.assoc e)
qed

text \<open>The definitions that evaluate a scan of a given stream.\<close>

lemmas marker_sets =
  SOF_markers_def length_prefixed_markers_def enumerated_markers_def
  SOF_Huffman_def JPG_Extension_def SOF_Arithmetic_def DHT_DAC_def RST_SOI_EOI_def
  SOS_to_COM_def TEM_def

lemmas scan_eval =
  ScanJpegForBitDepthInternal_def ScanLoop.simps ScanStep_def ReadUInt16_def ReadByte_def
  Seek_def ReadPrecision_def SkipSegment_def ReservedCheck_def marker_sets

section \<open>The claims\<close>

subsection \<open>C1: a Start-Of-Frame marker ends the scan with the precision byte\<close>

text \<open>
  C1. Whenever the marker read at the head of the loop yields one of the Start-Of-Frame
  values (0xFFC0-0xFFC3, 0xFFC5-0xFFC7, 0xFFC9-0xFFCB, 0xFFCD-0xFFCF), the scan seeks
  forward by exactly 2 bytes, over the frame-header length, reads one byte and returns
  it at once as the bit depth: the result is the byte 4 positions after the marker's first
  byte (and when the stream ends before that byte, the read fails). In particular a
  stream that begins with 0xFF and a Start-Of-Frame code such as 0xC0, two bytes of frame
  length and a precision byte \<open>P\<close> is scanned to exactly \<open>P\<close>.
\<close>

theorem sof_marker_returns_precision:
  "(ReadUInt16 buf pos = Inr (marker, p) \<and> marker \<in> SOF_markers \<longrightarrow>
      Seek p 2 = Inr (p + 2) \<and>
      ScanStep buf pos =
        (case ReadByte buf (p + 2) of Inl e \<Rightarrow> Inl e | Inr (P, _) \<Rightarrow> Inr (Return (uint P))) \<and>
      ScanLoop buf pos =
        (if pos + 4 < length buf then Inr (uint (buf ! (pos + 4))) else Inl EndOfStreamException))
   \<and> (c \<in> {0xc0, 0xc1, 0xc2, 0xc3, 0xc5, 0xc6, 0xc7, 0xc9, 0xca, 0xcb, 0xcd, 0xce, 0xcf} \<and>
       Fragments pixelData = (0xff # c # l1 # l2 # P # rest) # fragments \<longrightarrow>
      ScanJpegForBitDepthInternal pixelData = Inr (uint P))
   \<and> (marker' \<in> SOF_markers \<longleftrightarrow>
        (0xffc0 \<le> marker' \<and> marker' \<le> 0xffc3) \<or> (0xffc5 \<le> marker' \<and> marker' \<le> 0xffc7) \<or>
        (0xffc9 \<le> marker' \<and> marker' \<le> 0xffcb) \<or> (0xffcd \<le> marker' \<and> marker' \<le> 0xffcf))"
proof (intro conjI impI; (elim conjE)?)
  assume r: "ReadUInt16 buf pos = Inr (marker, p)" and sof: "marker \<in> SOF_markers"
  show "Seek p 2 = Inr (p + 2)"
    using Seek_forward [of p 2] by simp
  have step: "ScanStep buf pos = ReadPrecision buf p"
    by (rule ScanStep_SOF [OF r sof])
  show "ScanStep buf pos =
      (case ReadByte buf (p + 2) of Inl e \<Rightarrow> Inl e | Inr (P, _) \<Rightarrow> Inr (Return (uint P)))"
    unfolding step ReadPrecision_def using Seek_forward [of p 2] by simp
  show "ScanLoop buf pos =
      (if pos + 4 < length buf then Inr (uint (buf ! (pos + 4))) else Inl EndOfStreamException)"
    by (rule ScanLoop_SOF [OF r sof])
next
  let ?buf = "0xff # c # l1 # l2 # P # rest"
  assume c: "c \<in> {0xc0, 0xc1, 0xc2, 0xc3, 0xc5, 0xc6, 0xc7, 0xc9, 0xca, 0xcb, 0xcd, 0xce, 0xcf}"
    and fr: "Fragments pixelData = ?buf # fragments"
  have "ScanLoop ?buf 0 = Inr (uint P)"
    using ScanLoop_SOF [OF ReadUInt16_Cons2 SOF_code_marker [OF c], of "l1 # l2 # P # rest"]
    by simp
  with fr show "ScanJpegForBitDepthInternal pixelData = Inr (uint P)"
    by (simp add: ScanJpegForBitDepthInternal_def)
next
  show "marker' \<in> SOF_markers \<longleftrightarrow>
        (0xffc0 \<le> marker' \<and> marker' \<le> 0xffc3) \<or> (0xffc5 \<le> marker' \<and> marker' \<le> 0xffc7) \<or>
        (0xffc9 \<le> marker' \<and> marker' \<le> 0xffcb) \<or> (0xffcd \<le> marker' \<and> marker' \<le> 0xffcf)"
    by (rule SOF_markers_iff)
qed

text \<open>
  The marker 0xFFC3 read at position 2, after a Start-Of-Image: the scan returns the
  byte at position 6. And a stream that begins with 0xFFC0.
\<close>

theorem sof_marker_returns_precision_witness:
  "ReadUInt16 [0xff, 0xd8, 0xff, 0xc3, 0x00, 0x0b, 0x0c, 0x02] 2 = Inr (0xffc3, 4) \<and>
   0xffc3 \<in> SOF_markers \<and>
   Seek 4 2 = Inr 6 \<and>
   ScanStep [0xff, 0xd8, 0xff, 0xc3, 0x00, 0x0b, 0x0c, 0x02] 2 = Inr (Return 12) \<and>
   ScanLoop [0xff, 0xd8, 0xff, 0xc3, 0x00, 0x0b, 0x0c, 0x02] 2 = Inr 12 \<and>
   ScanJpegForBitDepthInternal \<lparr>Fragments = [[0xff, 0xc0, 0x00, 0x0b, 0x08, 0x00, 0x10]]\<rparr> = Inr 8"
proof -
  have r: "ReadUInt16 [0xff, 0xd8, 0xff, 0xc3, 0x00, 0x0b, 0x0c, 0x02] 2 = Inr (0xffc3, 4)"
    by (simp add: ReadUInt16_def)
  have m: "(0xffc3 :: ushort) \<in> SOF_markers"
    by (simp add: SOF_markers_def SOF_Huffman_def)
  from r m
    sof_marker_returns_precision
      [of "[0xff, 0xd8, 0xff, 0xc3, 0x00, 0x0b, 0x0c, 0x02]" 2 "0xffc3" 4 "0xc0"
          "\<lparr>Fragments = [[0xff, 0xc0, 0x00, 0x0b, 0x08, 0x00, 0x10]]\<rparr>" "0x00" "0x0b" "0x08"
          "[0x00, 0x10]" "[]" "0xffc3"]
  show ?thesis
    by (simp add: ReadByte_def)
qed

subsection \<open>C2: the entry point returns the scanner's result, or else the fallback's\<close>

text \<open>
  C2. For every pixel data, \<open>ScanHeaderForBitDepth\<close> returns the bit depth of the
  internal scanner when that scanner succeeds, and the fallback detector is not invoked:
  its state is returned as it was given. When the internal scanner fails, with any
  error at all, the fallback detector is invoked once, on the pixel data the entry point
  was given, and what it returns is returned unchanged, a failure of its own included.
\<close>

theorem resolve_primary_then_fallback:
  "(ScanJpegForBitDepthInternal pixelData = Inr depth \<longrightarrow>
      ScanHeaderForBitDepth ScanHeaderForPrecision w pixelData = (Inr depth, w))
   \<and> (ScanJpegForBitDepthInternal pixelData = Inl e \<longrightarrow>
      ScanHeaderForBitDepth ScanHeaderForPrecision w pixelData = ScanHeaderForPrecision w pixelData)"
  by (simp add: ScanHeaderForBitDepth_def)

text \<open>
  A fallback that records the pixel data of every invocation: no record after a scan that
  succeeds; one record, of the pixel data given, after a syntax error, after a stream
  without Start-Of-Frame, and after a truncated stream, where the fallback also fails.
\<close>

theorem resolve_primary_then_fallback_witness:
  "ScanJpegForBitDepthInternal \<lparr>Fragments = [[0xff, 0xc0, 0x00, 0x0b, 0x08]]\<rparr> = Inr 8 \<and>
   ScanHeaderForBitDepth (\<lambda>calls pd. (Inr 12 :: string + int, calls @ [pd])) []
       \<lparr>Fragments = [[0xff, 0xc0, 0x00, 0x0b, 0x08]]\<rparr>
     = (Inr 8, []) \<and>
   ScanJpegForBitDepthInternal \<lparr>Fragments = [[0x00, 0x00, 0x00, 0x00]]\<rparr> = Inl SyntaxError \<and>
   ScanHeaderForBitDepth (\<lambda>calls pd. (Inr 12 :: string + int, calls @ [pd])) []
       \<lparr>Fragments = [[0x00, 0x00, 0x00, 0x00]]\<rparr>
     = (Inr 12, [\<lparr>Fragments = [[0x00, 0x00, 0x00, 0x00]]\<rparr>]) \<and>
   ScanJpegForBitDepthInternal \<lparr>Fragments = [[0xff, 0xd8, 0xff, 0xd9]]\<rparr> = Inl NotFoundError \<and>
   ScanHeaderForBitDepth (\<lambda>calls pd. (Inr 12 :: string + int, calls @ [pd])) []
       \<lparr>Fragments = [[0xff, 0xd8, 0xff, 0xd9]]\<rparr>
     = (Inr 12, [\<lparr>Fragments = [[0xff, 0xd8, 0xff, 0xd9]]\<rparr>]) \<and>
   ScanJpegForBitDepthInternal \<lparr>Fragments = [[0xff, 0xc0, 0x00]]\<rparr> = Inl EndOfStreamException \<and>
   ScanHeaderForBitDepth (\<lambda>calls pd. (Inl ''no precision'' :: string + int, calls @ [pd])) []
       \<lparr>Fragments = [[0xff, 0xc0, 0x00]]\<rparr>
     = (Inl ''no precision'', [\<lparr>Fragments = [[0xff, 0xc0, 0x00]]\<rparr>])"
proof -
  let ?ok = "\<lambda>calls pd. (Inr 12 :: string + int, calls @ [pd :: DcmPixelData])"
  let ?bad = "\<lambda>calls pd. (Inl ''no precision'' :: string + int, calls @ [pd :: DcmPixelData])"
  have a: "ScanJpegForBitDepthInternal \<lparr>Fragments = [[0xff, 0xc0, 0x00, 0x0b, 0x08]]\<rparr> = Inr 8"
    by (simp add: scan_eval)
  have b: "ScanJpegForBitDepthInternal \<lparr>Fragments = [[0x00, 0x00, 0x00, 0x00]]\<rparr> = Inl SyntaxError"
    by (simp add: scan_eval)
  have c: "ScanJpegForBitDepthInternal \<lparr>Fragments = [[0xff, 0xd8, 0xff, 0xd9]]\<rparr> = Inl NotFoundError"
    by (simp add: scan_eval)
  have d: "ScanJpegForBitDepthInternal \<lparr>Fragments = [[0xff, 0xc0, 0x00]]\<rparr> = Inl EndOfStreamException"
    by (simp add: scan_eval)
  from a b c d
    resolve_primary_then_fallback
      [of "\<lparr>Fragments = [[0xff, 0xc0, 0x00, 0x0b, 0x08]]\<rparr>" 8 ?ok "[]"]
    resolve_primary_then_fallback
      [of "\<lparr>Fragments = [[0x00, 0x00, 0x00, 0x00]]\<rparr>" _ ?ok "[]" SyntaxError]
    resolve_primary_then_fallback
      [of "\<lparr>Fragments = [[0xff, 0xd8, 0xff, 0xd9]]\<rparr>" _ ?ok "[]" NotFoundError]
    resolve_primary_then_fallback
      [of "\<lparr>Fragments = [[0xff, 0xc0, 0x00]]\<rparr>" _ ?bad "[]" EndOfStreamException]
  show ?thesis
    by simp
qed

subsection \<open>C3: a length-prefixed segment is skipped by its declared length\<close>

text \<open>
  C3. For every marker that is followed by a segment length (DHT, DAC, SOS, DQT, DNL, DRI,
  DHP, EXP, the APPn, the JPGn, COM and the JPEG-extension marker 0xFFC8) with the
  declared 16-bit length \<open>N\<close>, the scanner seeks by exactly \<open>N - 2\<close> from the position
  just past the length field, and reads the next marker there. So every stream made of a
  well-formed COM segment of any length (the declared length counts its own two bytes),
  followed by a Start-Of-Frame segment 0xFFC0, is scanned to the precision byte of that
  Start-Of-Frame segment.
\<close>

theorem length_prefixed_segment_is_skipped:
  "(ReadUInt16 buf pos = Inr (marker, p) \<and> marker \<in> length_prefixed_markers \<and>
    ReadUInt16 buf p = Inr (N, p2) \<longrightarrow>
      (\<exists>p3. Seek p2 (uint N - 2) = Inr p3 \<and> int p3 = int p2 + (uint N - 2) \<and>
            ScanStep buf pos = Inr (Continue p3) \<and> ScanLoop buf pos = ScanLoop buf p3))
   \<and> (2 \<le> unat (N' :: ushort) \<and> length body = unat N' - 2 \<and>
       Fragments pixelData =
         ([0xff, 0xfe, ucast (drop_bit 8 N'), ucast N'] @ body @ [0xff, 0xc0, l1, l2, P] @ rest)
           # fragments \<longrightarrow>
      ScanJpegForBitDepthInternal pixelData = Inr (uint P))
   \<and> (marker' \<in> length_prefixed_markers \<longleftrightarrow>
        marker' = 0xffc8 \<or> marker' = 0xffc4 \<or> marker' = 0xffcc \<or>
        (0xffda \<le> marker' \<and> marker' \<le> 0xfffe))"
proof (intro conjI impI; (elim conjE)?)
  assume r: "ReadUInt16 buf pos = Inr (marker, p)" and m: "marker \<in> length_prefixed_markers"
    and len: "ReadUInt16 buf p = Inr (N, p2)"
  have p2: "p2 = p + 2"
    using ReadUInt16_Inr [OF len] by simp
  have seek: "Seek p2 (uint N - 2) = Inr (p + unat N)"
    unfolding p2 by (rule Seek_skip)
  have "int (p + unat N) = int p2 + (uint N - 2)"
    unfolding p2 by simp
  with seek ScanLoop_length_prefixed [OF r m len]
  show "\<exists>p3. Seek p2 (uint N - 2) = Inr p3 \<and> int p3 = int p2 + (uint N - 2) \<and>
            ScanStep buf pos = Inr (Continue p3) \<and> ScanLoop buf pos = ScanLoop buf p3"
    by blast
next
  let ?head = "[0xff, 0xfe, ucast (drop_bit 8 N'), ucast N'] :: byte list"
  let ?buf = "?head @ body @ [0xff, 0xc0, l1, l2, P] @ rest"
  assume wf: "2 \<le> unat N'" and body: "length body = unat N' - 2"
    and fr: "Fragments pixelData = ?buf # fragments"
  have r: "ReadUInt16 ?buf 0 = Inr (0xfffe, 2)"
    by (simp add: ReadUInt16_def)
  have m: "(0xfffe :: ushort) \<in> length_prefixed_markers"
    by (simp add: length_prefixed_markers_def SOS_to_COM_def)
  have len: "ReadUInt16 ?buf 2 = Inr (N', 4)"
    by (simp add: ReadUInt16_def ushort_of_bytes)
  have "ScanLoop ?buf 0 = ScanLoop ?buf (2 + unat N')"
    by (rule ScanLoop_length_prefixed(2) [OF r m len])
  also from wf body have "2 + unat N' = length (?head @ body)"
    by simp
  also have "ScanLoop ?buf (length (?head @ body)) = Inr (uint P)"
    using SOF0_after_prefix [of "?head @ body" l1 l2 P rest] by simp
  finally show "ScanJpegForBitDepthInternal pixelData = Inr (uint P)"
    using fr by (simp add: ScanJpegForBitDepthInternal_def)
next
  show "marker' \<in> length_prefixed_markers \<longleftrightarrow>
        marker' = 0xffc8 \<or> marker' = 0xffc4 \<or> marker' = 0xffcc \<or>
        (0xffda \<le> marker' \<and> marker' \<le> 0xfffe)"
    by (rule length_prefixed_markers_iff)
qed

text \<open>
  A DQT segment of declared length 5 read at position 2: the cursor, at 6 after the
  length, is moved by 3 to position 9. And a COM segment of length 6 before a
  Start-Of-Frame segment of precision 16.
\<close>

theorem length_prefixed_segment_is_skipped_witness:
  "ReadUInt16 [0xff, 0xd8, 0xff, 0xdb, 0x00, 0x05, 0x01, 0x02, 0x03, 0xff, 0xc0, 0x00, 0x0b, 0x08] 2
     = Inr (0xffdb, 4) \<and>
   0xffdb \<in> length_prefixed_markers \<and>
   ReadUInt16 [0xff, 0xd8, 0xff, 0xdb, 0x00, 0x05, 0x01, 0x02, 0x03, 0xff, 0xc0, 0x00, 0x0b, 0x08] 4
     = Inr (5, 6) \<and>
   Seek 6 (uint (5 :: ushort) - 2) = Inr 9 \<and>
   ScanStep [0xff, 0xd8, 0xff, 0xdb, 0x00, 0x05, 0x01, 0x02, 0x03, 0xff, 0xc0, 0x00, 0x0b, 0x08] 2
     = Inr (Continue 9) \<and>
   2 \<le> unat (6 :: ushort) \<and> length [0x4a, 0x46, 0x49, 0x46 :: byte] = unat (6 :: ushort) - 2 \<and>
   ScanJpegForBitDepthInternal
     \<lparr>Fragments = [[0xff, 0xfe, 0x00, 0x06, 0x4a, 0x46, 0x49, 0x46, 0xff, 0xc0, 0x00, 0x0b, 0x10, 0x00]]\<rparr>
     = Inr 16"
proof -
  let ?buf = "[0xff, 0xd8, 0xff, 0xdb, 0x00, 0x05, 0x01, 0x02, 0x03, 0xff, 0xc0, 0x00, 0x0b, 0x08] :: byte list"
  have r: "ReadUInt16 ?buf 2 = Inr (0xffdb, 4)"
    by (simp add: ReadUInt16_def)
  have m: "(0xffdb :: ushort) \<in> length_prefixed_markers"
    by (simp add: length_prefixed_markers_def SOS_to_COM_def)
  have len: "ReadUInt16 ?buf 4 = Inr (5, 6)"
    by (simp add: ReadUInt16_def)
  have s: "Seek 6 (uint (5 :: ushort) - 2) = Inr 9"
    by (simp add: Seek_def)
  from r m len s
    length_prefixed_segment_is_skipped
      [of ?buf 2 "0xffdb" 4 5 6 6 "[0x4a, 0x46, 0x49, 0x46]"
          "\<lparr>Fragments = [[0xff, 0xfe, 0x00, 0x06, 0x4a, 0x46, 0x49, 0x46, 0xff, 0xc0, 0x00, 0x0b, 0x10, 0x00]]\<rparr>"
          "0x00" "0x0b" "0x10" "[0x00]" "[]" "0xffdb"]
  show ?thesis
    by simp
qed

subsection \<open>C4: the end of the stream without a Start-Of-Frame\<close>

text \<open>
  C4. Whenever the scan loop goes through the stream to its end, every iteration going on
  to the next (so that none met a Start-Of-Frame marker, and none failed), the scan fails
  with \<open>NotFoundError\<close>. In particular the stream 0xFFD8 0xFFD9, a Start-Of-Image and
  at once an End-Of-Image, fails with \<open>NotFoundError\<close>.
\<close>

theorem end_of_stream_without_sof_is_not_found:
  "(scan_reaches buf pos q \<and> length buf \<le> q \<longrightarrow> ScanLoop buf pos = Inl NotFoundError)
   \<and> (Fragments pixelData = buf # fragments \<and> scan_reaches buf 0 q \<and> length buf \<le> q \<longrightarrow>
        ScanJpegForBitDepthInternal pixelData = Inl NotFoundError)
   \<and> (Fragments pixelData' = [0xff, 0xd8, 0xff, 0xd9] # fragments' \<longrightarrow>
        ScanJpegForBitDepthInternal pixelData' = Inl NotFoundError)"
proof (intro conjI impI; (elim conjE)?)
  assume "scan_reaches buf pos q" and "length buf \<le> q"
  then show "ScanLoop buf pos = Inl NotFoundError"
    by (simp add: scan_reaches_ScanLoop ScanLoop_end)
next
  assume "Fragments pixelData = buf # fragments" and "scan_reaches buf 0 q" and "length buf \<le> q"
  then show "ScanJpegForBitDepthInternal pixelData = Inl NotFoundError"
    by (simp add: ScanJpegForBitDepthInternal_def scan_reaches_ScanLoop ScanLoop_end)
next
  assume "Fragments pixelData' = [0xff, 0xd8, 0xff, 0xd9] # fragments'"
  then show "ScanJpegForBitDepthInternal pixelData' = Inl NotFoundError"
    by (simp add: scan_eval)
qed

text \<open>Start-Of-Image, an APP0 segment of length 4, End-Of-Image: three iterations.\<close>

theorem end_of_stream_without_sof_is_not_found_witness:
  "scan_reaches [0xff, 0xd8, 0xff, 0xe0, 0x00, 0x04, 0x4a, 0x46, 0xff, 0xd9] 0 10 \<and>
   length [0xff, 0xd8, 0xff, 0xe0, 0x00, 0x04, 0x4a, 0x46, 0xff, 0xd9 :: byte] \<le> 10 \<and>
   ScanLoop [0xff, 0xd8, 0xff, 0xe0, 0x00, 0x04, 0x4a, 0x46, 0xff, 0xd9] 0 = Inl NotFoundError \<and>
   ScanJpegForBitDepthInternal
     \<lparr>Fragments = [[0xff, 0xd8, 0xff, 0xe0, 0x00, 0x04, 0x4a, 0x46, 0xff, 0xd9]]\<rparr>
     = Inl NotFoundError \<and>
   ScanJpegForBitDepthInternal \<lparr>Fragments = [[0xff, 0xd8, 0xff, 0xd9]]\<rparr> = Inl NotFoundError"
proof -
  let ?buf = "[0xff, 0xd8, 0xff, 0xe0, 0x00, 0x04, 0x4a, 0x46, 0xff, 0xd9] :: byte list"
  have s0: "ScanStep ?buf 0 = Inr (Continue 2)"
    by (simp add: ScanStep_def ReadUInt16_def marker_sets)
  have s2: "ScanStep ?buf 2 = Inr (Continue 8)"
    by (simp add: ScanStep_def ReadUInt16_def SkipSegment_def Seek_def marker_sets)
  have s8: "ScanStep ?buf 8 = Inr (Continue 10)"
    by (simp add: ScanStep_def ReadUInt16_def marker_sets)
  have "scan_reaches ?buf 8 10"
    using scan_reaches.iterate [OF _ s8 scan_reaches.here] by simp
  then have "scan_reaches ?buf 2 10"
    using scan_reaches.iterate [OF _ s2] by simp
  then have reach: "scan_reaches ?buf 0 10"
    using scan_reaches.iterate [OF _ s0] by simp
  from reach
    end_of_stream_without_sof_is_not_found
      [of ?buf 0 10 "\<lparr>Fragments = [?buf]\<rparr>" "[]" "\<lparr>Fragments = [[0xff, 0xd8, 0xff, 0xd9]]\<rparr>" "[]"]
  show ?thesis
    by simp
qed

subsection \<open>C5: the position of the cursor during a scan pass\<close>

text \<open>
  The cursor does move backward inside an iteration. In the stream
  0xFF 0xFE 0x00 0x00 0xFF 0xD9 the marker COM is read (the cursor is at 2), then the
  declared length 0 (the cursor is at 4), and the seek by \<open>0 - 2\<close> puts the cursor back
  at 2: the two bytes of the length are read again, as the next marker.
\<close>

theorem backward_seek_counterexample:
  "ReadUInt16 [0xff, 0xfe, 0x00, 0x00, 0xff, 0xd9] 0 = Inr (0xfffe, 2) \<and>
   0xfffe \<in> length_prefixed_markers \<and>
   ReadUInt16 [0xff, 0xfe, 0x00, 0x00, 0xff, 0xd9] 2 = Inr (0, 4) \<and>
   Seek 4 (uint (0 :: ushort) - 2) = Inr 2 \<and>
   (2 :: nat) < 4 \<and>
   ScanStep [0xff, 0xfe, 0x00, 0x00, 0xff, 0xd9] 0 = Inr (Continue 2)"
  by (simp add: ScanStep_def ReadUInt16_def SkipSegment_def Seek_def marker_sets)

text \<open>
  C5, as amended. From one iteration of the loop to the next the position of the cursor
  never decreases: reading the marker advances it by 2, and every marker-handling branch
  that goes on leaves it at or after the position at which the branch was entered. Inside
  the branch of a length-prefixed marker the seek by \<open>N - 2\<close> moves the cursor backward
  exactly when the declared length \<open>N\<close> is 0 or 1, by at most 2 bytes and never before
  the start of the length field.
\<close>

theorem cursor_advances_across_iterations:
  "(ReadUInt16 buf pos = Inr (marker, p) \<and> ScanStep buf pos = Inr (Continue p') \<longrightarrow>
      p = pos + 2 \<and> p \<le> p')
   \<and> (ReadUInt16 buf pos = Inr (marker, p) \<and> marker \<in> length_prefixed_markers \<and>
       ReadUInt16 buf p = Inr (N, p2) \<longrightarrow>
      p2 = p + 2 \<and> Seek p2 (uint N - 2) = Inr (p + unat N) \<and>
      ScanStep buf pos = Inr (Continue (p + unat N)) \<and>
      (p + unat N < p2 \<longleftrightarrow> unat N < 2) \<and> p \<le> p + unat N \<and> p2 \<le> p + unat N + 2)
   \<and> (scan_reaches buf pos q \<longrightarrow> pos \<le> q)"
proof (intro conjI impI; (elim conjE)?)
  assume r: "ReadUInt16 buf pos = Inr (marker, p)" and s: "ScanStep buf pos = Inr (Continue p')"
  show "p = pos + 2"
    using ReadUInt16_Inr [OF r] by simp
  show "p \<le> p'"
    by (rule ScanStep_Continue_after_marker [OF r s])
next
  assume r: "ReadUInt16 buf pos = Inr (marker, p)" and m: "marker \<in> length_prefixed_markers"
    and len: "ReadUInt16 buf p = Inr (N, p2)"
  show p2: "p2 = p + 2"
    using ReadUInt16_Inr [OF len] by simp
  show "Seek p2 (uint N - 2) = Inr (p + unat N)"
    unfolding p2 by (rule Seek_skip)
  show "ScanStep buf pos = Inr (Continue (p + unat N))"
    by (rule ScanLoop_length_prefixed(1) [OF r m len])
  show "p + unat N < p2 \<longleftrightarrow> unat N < 2"
    unfolding p2 by simp
  show "p \<le> p + unat N"
    by simp
  show "p2 \<le> p + unat N + 2"
    unfolding p2 by simp
next
  assume "scan_reaches buf pos q"
  then show "pos \<le> q"
    by (rule scan_reaches_le)
qed

text \<open>
  A COM segment of declared length 1: the seek from 4 goes back to 3. Then, read at 4, a DQT
  segment of declared length 3: the seek from 8 goes forward to 9.
\<close>

theorem cursor_advances_across_iterations_witness:
  "ReadUInt16 [0xff, 0xfe, 0x00, 0x01, 0xff, 0xdb, 0x00, 0x03, 0x07] 0 = Inr (0xfffe, 2) \<and>
   0xfffe \<in> length_prefixed_markers \<and>
   ReadUInt16 [0xff, 0xfe, 0x00, 0x01, 0xff, 0xdb, 0x00, 0x03, 0x07] 2 = Inr (1, 4) \<and>
   Seek 4 (uint (1 :: ushort) - 2) = Inr 3 \<and>
   ScanStep [0xff, 0xfe, 0x00, 0x01, 0xff, 0xdb, 0x00, 0x03, 0x07] 0 = Inr (Continue 3) \<and>
   (3 :: nat) < 4 \<and> unat (1 :: ushort) < 2 \<and>
   ReadUInt16 [0xff, 0xfe, 0x00, 0x01, 0xff, 0xdb, 0x00, 0x03, 0x07] 4 = Inr (0xffdb, 6) \<and>
   0xffdb \<in> length_prefixed_markers \<and>
   ReadUInt16 [0xff, 0xfe, 0x00, 0x01, 0xff, 0xdb, 0x00, 0x03, 0x07] 6 = Inr (3, 8) \<and>
   Seek 8 (uint (3 :: ushort) - 2) = Inr 9 \<and>
   ScanStep [0xff, 0xfe, 0x00, 0x01, 0xff, 0xdb, 0x00, 0x03, 0x07] 4 = Inr (Continue 9) \<and>
   \<not> (9 :: nat) < 8 \<and> \<not> unat (3 :: ushort) < 2 \<and>
   scan_reaches [0xff, 0xfe, 0x00, 0x01, 0xff, 0xdb, 0x00, 0x03, 0x07] 0 3 \<and> (0 :: nat) \<le> 3"
proof -
  let ?buf = "[0xff, 0xfe, 0x00, 0x01, 0xff, 0xdb, 0x00, 0x03, 0x07] :: byte list"
  have r0: "ReadUInt16 ?buf 0 = Inr (0xfffe, 2)" and l2: "ReadUInt16 ?buf 2 = Inr (1, 4)"
    and r4: "ReadUInt16 ?buf 4 = Inr (0xffdb, 6)" and l6: "ReadUInt16 ?buf 6 = Inr (3, 8)"
    by (simp_all add: ReadUInt16_def)
  have m0: "(0xfffe :: ushort) \<in> length_prefixed_markers"
    and m4: "(0xffdb :: ushort) \<in> length_prefixed_markers"
    by (simp_all add: length_prefixed_markers_def SOS_to_COM_def)
  note a = cursor_advances_across_iterations [of ?buf 0 "0xfffe" 2 3 1 4 3]
  note b = cursor_advances_across_iterations [of ?buf 4 "0xffdb" 6 9 3 8 9]
  from a r0 m0 l2 have a': "Seek 4 (uint (1 :: ushort) - 2) = Inr 3"
    "ScanStep ?buf 0 = Inr (Continue 3)" "(3 :: nat) < 4" "unat (1 :: ushort) < 2"
    by simp_all
  from b r4 m4 l6 have b': "Seek 8 (uint (3 :: ushort) - 2) = Inr 9"
    "ScanStep ?buf 4 = Inr (Continue 9)" "\<not> (9 :: nat) < 8" "\<not> unat (3 :: ushort) < 2"
    by simp_all
  have reach: "scan_reaches ?buf 0 3"
    using scan_reaches.iterate [OF _ a'(2) scan_reaches.here] by simp
  with a have le: "(0 :: nat) \<le> 3"
    by blast
  from r0 m0 l2 a' r4 m4 l6 b' reach le show ?thesis
    by (intro conjI)
qed

subsection \<open>C6: a reserved marker before a Start-Of-Frame segment\<close>

text \<open>
  C6. The claim is that a stream with the byte pair 0xFF 0x05 followed by a
  Start-Of-Frame segment 0xFFC0 is scanned to the precision of that segment. The scanner
  reads 0xFF05 as the marker, reaches the default branch, and there tests the next two
  bytes, 0xFF 0xC0, which are not in the reserved range: the scan of
  0xFF 0x05 0xFF 0xC0 0x00 0x0B 0x08 fails with \<open>SyntaxError\<close> instead of returning 8.
\<close>

theorem reserved_pair_before_sof_is_rejected:
  "ScanJpegForBitDepthInternal \<lparr>Fragments = [[0xff, 0x05, 0xff, 0xc0, 0x00, 0x0b, 0x08]]\<rparr>
     = Inl SyntaxError"
  by (simp add: scan_eval)

subsection \<open>C7: the marker 0xFFA0\<close>

text \<open>
  The marker 0xFFA0 does not always end the scan with \<open>SyntaxError\<close>: when the two bytes
  after it are 0xFF 0x05 the loop goes on, and here it returns the precision 8 of the
  Start-Of-Frame segment that follows.
\<close>

theorem marker_ffa0_counterexample:
  "ReadUInt16 [0xff, 0xa0, 0xff, 0x05, 0xff, 0xc0, 0x00, 0x0b, 0x08] 0 = Inr (0xffa0, 2) \<and>
   0xffa0 \<notin> enumerated_markers \<and>
   ScanJpegForBitDepthInternal
     \<lparr>Fragments = [[0xff, 0xa0, 0xff, 0x05, 0xff, 0xc0, 0x00, 0x0b, 0x08]]\<rparr> = Inr 8"
  by (simp add: scan_eval)

text \<open>
  C7, as amended. Whenever the scanner reads the marker value 0xFFA0 and at least two
  more bytes follow, the first of which is not 0xFF, the scan fails with \<open>SyntaxError\<close>.
\<close>

theorem marker_ffa0_then_non_marker_is_syntax_error:
  "(ReadUInt16 buf pos = Inr (0xffa0, p) \<and> pos + 4 \<le> length buf \<and> buf ! (pos + 2) \<noteq> 0xff \<longrightarrow>
      ScanStep buf pos = Inl SyntaxError \<and> ScanLoop buf pos = Inl SyntaxError)
   \<and> (Fragments pixelData = (0xff # 0xa0 # b1 # b2 # rest) # fragments \<and> b1 \<noteq> 0xff \<longrightarrow>
      ScanJpegForBitDepthInternal pixelData = Inl SyntaxError)"
proof -
  have unenumerated: "(0xffa0 :: ushort) \<notin> enumerated_markers"
    by (simp add: marker_sets)
  have fails: "ScanStep buf pos = Inl SyntaxError \<and> ScanLoop buf pos = Inl SyntaxError"
    if r: "ReadUInt16 buf pos = Inr (0xffa0, p)" and len: "pos + 4 \<le> length buf"
      and b: "buf ! (pos + 2) \<noteq> 0xff" for buf pos p
  proof -
    from b have "uint (buf ! (pos + 2)) \<noteq> 0xff"
      by (simp add: uint_byte_ff)
    with ScanStep_unenumerated [OF r unenumerated] len
    have "ScanStep buf pos = Inl SyntaxError"
      by simp
    moreover from len have "pos < length buf"
      by simp
    ultimately show ?thesis
      by (simp add: ScanLoop_fail)
  qed
  show ?thesis
  proof (intro conjI impI; (elim conjE)?)
    assume "Fragments pixelData = (0xff # 0xa0 # b1 # b2 # rest) # fragments" and b1: "b1 \<noteq> 0xff"
    moreover have "ScanLoop (0xff # 0xa0 # b1 # b2 # rest) 0 = Inl SyntaxError"
      using fails [of "0xff # 0xa0 # b1 # b2 # rest" 0 2] b1 by (simp add: ReadUInt16_def)
    ultimately show "ScanJpegForBitDepthInternal pixelData = Inl SyntaxError"
      by (simp add: ScanJpegForBitDepthInternal_def)
  qed (use fails in blast)+
qed

theorem marker_ffa0_then_non_marker_is_syntax_error_witness:
  "ReadUInt16 [0xff, 0xd8, 0xff, 0xa0, 0x00, 0x04, 0xff, 0xc0] 2 = Inr (0xffa0, 4) \<and>
   2 + 4 \<le> length [0xff, 0xd8, 0xff, 0xa0, 0x00, 0x04, 0xff, 0xc0 :: byte] \<and>
   [0xff, 0xd8, 0xff, 0xa0, 0x00, 0x04, 0xff, 0xc0 :: byte] ! (2 + 2) \<noteq> 0xff \<and>
   ScanStep [0xff, 0xd8, 0xff, 0xa0, 0x00, 0x04, 0xff, 0xc0] 2 = Inl SyntaxError \<and>
   ScanLoop [0xff, 0xd8, 0xff, 0xa0, 0x00, 0x04, 0xff, 0xc0] 2 = Inl SyntaxError \<and>
   ScanJpegForBitDepthInternal \<lparr>Fragments = [[0xff, 0xa0, 0x00, 0x04, 0xff, 0xc0, 0x00, 0x0b, 0x08]]\<rparr>
     = Inl SyntaxError"
proof -
  let ?buf = "[0xff, 0xd8, 0xff, 0xa0, 0x00, 0x04, 0xff, 0xc0] :: byte list"
  have r: "ReadUInt16 ?buf 2 = Inr (0xffa0, 4)"
    by (simp add: ReadUInt16_def)
  from r
    marker_ffa0_then_non_marker_is_syntax_error
      [of ?buf 2 4 "\<lparr>Fragments = [[0xff, 0xa0, 0x00, 0x04, 0xff, 0xc0, 0x00, 0x0b, 0x08]]\<rparr>"
          "0x00" "0x04" "[0xff, 0xc0, 0x00, 0x0b, 0x08]" "[]"]
  show ?thesis
    by simp
qed

subsection \<open>C8: every scan pass ends\<close>

text \<open>
  C8. The scan loop terminates on every stream. An iteration that goes on has strictly
  advanced the cursor; so from every position the loop comes, after finitely many
  iterations, to the end of the stream (and fails with \<open>NotFoundError\<close>), to an iteration
  that fails (and fails with its error), or to an iteration that returns (and returns its
  bit depth). An iteration returns a bit depth only when the marker it read is a
  Start-Of-Frame marker, and the bit depth is then the precision byte of that segment.
\<close>

theorem scan_pass_is_finite:
  "(ScanStep buf pos = Inr (Continue p') \<longrightarrow> pos < p')
   \<and> (\<exists>q. scan_reaches buf pos q \<and>
         ((length buf \<le> q \<and> ScanLoop buf pos = Inl NotFoundError)
          \<or> (q < length buf \<and> (\<exists>e. ScanStep buf q = Inl e \<and> ScanLoop buf pos = Inl e))
          \<or> (q < length buf \<and> (\<exists>d. ScanStep buf q = Inr (Return d) \<and> ScanLoop buf pos = Inr d))))
   \<and> (ScanStep buf pos = Inr (Return d) \<longrightarrow>
         (\<exists>m. ReadUInt16 buf pos = Inr (m, pos + 2) \<and> m \<in> SOF_markers \<and> d = uint (buf ! (pos + 4))))
   \<and> (ScanLoop buf pos = Inr d' \<longrightarrow>
         (\<exists>q m. scan_reaches buf pos q \<and> ReadUInt16 buf q = Inr (m, q + 2) \<and> m \<in> SOF_markers
                \<and> q + 4 < length buf \<and> d' = uint (buf ! (q + 4))))"
proof -
  obtain q where reach: "scan_reaches buf pos q"
    and stop: "length buf \<le> q \<or> (q < length buf \<and> (\<forall>p. ScanStep buf q \<noteq> Inr (Continue p)))"
    using scan_ends [of buf pos] by blast
  have loop: "ScanLoop buf pos = ScanLoop buf q"
    by (rule scan_reaches_ScanLoop [OF reach])
  have outcome:
    "(length buf \<le> q \<and> ScanLoop buf pos = Inl NotFoundError)
     \<or> (q < length buf \<and> (\<exists>e. ScanStep buf q = Inl e \<and> ScanLoop buf pos = Inl e))
     \<or> (q < length buf \<and> (\<exists>d. ScanStep buf q = Inr (Return d) \<and> ScanLoop buf pos = Inr d))"
  proof (cases "length buf \<le> q")
    case True
    then show ?thesis
      by (simp add: loop ScanLoop_end)
  next
    case False
    with stop have inside: "q < length buf" and no: "\<forall>p. ScanStep buf q \<noteq> Inr (Continue p)"
      by simp_all
    show ?thesis
    proof (cases "ScanStep buf q")
      case (Inl e)
      with inside show ?thesis
        by (simp add: loop ScanLoop_fail)
    next
      case (Inr it)
      with no obtain d where "ScanStep buf q = Inr (Return d)"
        by (cases it) simp_all
      with inside show ?thesis
        by (simp add: loop ScanLoop_Return)
    qed
  qed
  have returned: "\<exists>q m. scan_reaches buf pos q \<and> ReadUInt16 buf q = Inr (m, q + 2) \<and> m \<in> SOF_markers
                \<and> q + 4 < length buf \<and> d' = uint (buf ! (q + 4))"
    if "ScanLoop buf pos = Inr d'"
  proof -
    from that outcome have "ScanStep buf q = Inr (Return d')"
      by auto
    from ScanStep_Return [OF this] reach show ?thesis
      by blast
  qed
  have step: "pos < p'" if "ScanStep buf pos = Inr (Continue p')"
    using ScanStep_Continue [OF that] by simp
  have ret: "\<exists>m. ReadUInt16 buf pos = Inr (m, pos + 2) \<and> m \<in> SOF_markers \<and> d = uint (buf ! (pos + 4))"
    if "ScanStep buf pos = Inr (Return d)"
    using ScanStep_Return [OF that] by blast
  from step reach outcome ret returned show ?thesis
    by blast
qed

text \<open>Start-Of-Image, a COM segment of length 3, then a Start-Of-Frame 0xFFC1 of precision 12.\<close>

theorem scan_pass_is_finite_witness:
  "ScanStep [0xff, 0xd8, 0xff, 0xfe, 0x00, 0x03, 0x41, 0xff, 0xc1, 0x00, 0x0b, 0x0c] 0 = Inr (Continue 2) \<and>
   (0 :: nat) < 2 \<and>
   ScanLoop [0xff, 0xd8, 0xff, 0xfe, 0x00, 0x03, 0x41, 0xff, 0xc1, 0x00, 0x0b, 0x0c] 0 = Inr 12 \<and>
   (\<exists>q m. scan_reaches [0xff, 0xd8, 0xff, 0xfe, 0x00, 0x03, 0x41, 0xff, 0xc1, 0x00, 0x0b, 0x0c] 0 q \<and>
      ReadUInt16 [0xff, 0xd8, 0xff, 0xfe, 0x00, 0x03, 0x41, 0xff, 0xc1, 0x00, 0x0b, 0x0c] q = Inr (m, q + 2) \<and>
      m \<in> SOF_markers \<and>
      q + 4 < length [0xff, 0xd8, 0xff, 0xfe, 0x00, 0x03, 0x41, 0xff, 0xc1, 0x00, 0x0b, 0x0c :: byte] \<and>
      12 = uint ([0xff, 0xd8, 0xff, 0xfe, 0x00, 0x03, 0x41, 0xff, 0xc1, 0x00, 0x0b, 0x0c :: byte] ! (q + 4)))"
proof -
  let ?buf = "[0xff, 0xd8, 0xff, 0xfe, 0x00, 0x03, 0x41, 0xff, 0xc1, 0x00, 0x0b, 0x0c] :: byte list"
  have s0: "ScanStep ?buf 0 = Inr (Continue 2)"
    by (simp add: ScanStep_def ReadUInt16_def marker_sets)
  have l: "ScanLoop ?buf 0 = Inr 12"
    by (simp add: scan_eval)
  note finite = scan_pass_is_finite [of ?buf 0 2 _ 12]
  from finite s0 have adv: "(0 :: nat) < 2"
    by blast
  from finite l have sof:
    "\<exists>q m. scan_reaches ?buf 0 q \<and> ReadUInt16 ?buf q = Inr (m, q + 2) \<and> m \<in> SOF_markers
        \<and> q + 4 < length ?buf \<and> 12 = uint (?buf ! (q + 4))"
    by blast
  from s0 adv l sof show ?thesis
    by (intro conjI)
qed

subsection \<open>C9: the default branch tests the two bytes after the marker\<close>

text \<open>
  C9. When the marker read matches none of the case labels, which includes every value
  whose high byte is not 0xFF, the scanner reads two more bytes before it decides: the
  loop goes on if and only if these two bytes are there and are 0xFF and then a byte
  greater than 0x02 and at most 0xBF, and otherwise the iteration fails. The test is on
  the two bytes after the marker, not on the marker, and an iteration that goes on has
  consumed 4 bytes.
\<close>

theorem unenumerated_marker_tests_following_bytes:
  "(ReadUInt16 buf pos = Inr (marker, p) \<and> marker \<notin> enumerated_markers \<longrightarrow>
      ScanStep buf pos =
        (if pos + 4 \<le> length buf
         then (if uint (buf ! (pos + 2)) = 0xff \<and> 2 < uint (buf ! (pos + 3))
                  \<and> uint (buf ! (pos + 3)) \<le> 0xbf
               then Inr (Continue (pos + 4)) else Inl SyntaxError)
         else Inl EndOfStreamException)
      \<and> ((\<exists>p'. ScanStep buf pos = Inr (Continue p')) \<longleftrightarrow>
           pos + 4 \<le> length buf \<and> buf ! (pos + 2) = 0xff \<and> 0x02 < buf ! (pos + 3)
             \<and> buf ! (pos + 3) \<le> 0xbf)
      \<and> ((\<nexists>p'. ScanStep buf pos = Inr (Continue p')) \<longleftrightarrow> (\<exists>e. ScanStep buf pos = Inl e)))
   \<and> (drop_bit 8 marker' \<noteq> 0xff \<longrightarrow> marker' \<notin> enumerated_markers)"
proof (intro conjI impI; (elim conjE)?)
  assume r: "ReadUInt16 buf pos = Inr (marker, p)" and m: "marker \<notin> enumerated_markers"
  note step = ScanStep_unenumerated [OF r m]
  show "ScanStep buf pos =
        (if pos + 4 \<le> length buf
         then (if uint (buf ! (pos + 2)) = 0xff \<and> 2 < uint (buf ! (pos + 3))
                  \<and> uint (buf ! (pos + 3)) \<le> 0xbf
               then Inr (Continue (pos + 4)) else Inl SyntaxError)
         else Inl EndOfStreamException)"
    by (rule step)
  have lt: "2 < uint b \<longleftrightarrow> 0x02 < b" and le: "uint b \<le> 0xbf \<longleftrightarrow> b \<le> 0xbf" for b :: byte
    by (simp_all add: word_less_def word_le_def)
  show "(\<exists>p'. ScanStep buf pos = Inr (Continue p')) \<longleftrightarrow>
           pos + 4 \<le> length buf \<and> buf ! (pos + 2) = 0xff \<and> 0x02 < buf ! (pos + 3)
             \<and> buf ! (pos + 3) \<le> 0xbf"
    unfolding step by (simp add: uint_byte_ff lt le)
  show "(\<nexists>p'. ScanStep buf pos = Inr (Continue p')) \<longleftrightarrow> (\<exists>e. ScanStep buf pos = Inl e)"
    unfolding step by simp
next
  assume "drop_bit 8 marker' \<noteq> 0xff"
  then show "marker' \<notin> enumerated_markers"
    using enumerated_high_byte [of marker'] by blast
qed

text \<open>
  The marker 0x1234 followed by 0xFF 0x05 goes on at position 4; the marker 0xFF05,
  itself in the reserved range, followed by 0xFF 0xC0 is a syntax error, and followed by
  a single byte a read error.
\<close>

theorem unenumerated_marker_tests_following_bytes_witness:
  "ReadUInt16 [0x12, 0x34, 0xff, 0x05, 0xff, 0xc0, 0x00, 0x0b, 0x08] 0 = Inr (0x1234, 2) \<and>
   0x1234 \<notin> enumerated_markers \<and>
   ScanStep [0x12, 0x34, 0xff, 0x05, 0xff, 0xc0, 0x00, 0x0b, 0x08] 0 = Inr (Continue 4) \<and>
   ReadUInt16 [0xff, 0x05, 0xff, 0xc0, 0x00, 0x0b, 0x08] 0 = Inr (0xff05, 2) \<and>
   0xff05 \<notin> enumerated_markers \<and>
   ScanStep [0xff, 0x05, 0xff, 0xc0, 0x00, 0x0b, 0x08] 0 = Inl SyntaxError \<and>
   ReadUInt16 [0xff, 0x05, 0xff] 0 = Inr (0xff05, 2) \<and>
   ScanStep [0xff, 0x05, 0xff] 0 = Inl EndOfStreamException \<and>
   drop_bit 8 (0x1234 :: ushort) \<noteq> 0xff"
proof -
  let ?a = "[0x12, 0x34, 0xff, 0x05, 0xff, 0xc0, 0x00, 0x0b, 0x08] :: byte list"
  let ?b = "[0xff, 0x05, 0xff, 0xc0, 0x00, 0x0b, 0x08] :: byte list"
  let ?c = "[0xff, 0x05, 0xff] :: byte list"
  have ra: "ReadUInt16 ?a 0 = Inr (0x1234, 2)" and rb: "ReadUInt16 ?b 0 = Inr (0xff05, 2)"
    and rc: "ReadUInt16 ?c 0 = Inr (0xff05, 2)"
    by (simp_all add: ReadUInt16_def)
  have hi: "drop_bit 8 (0x1234 :: ushort) \<noteq> 0xff"
    by simp
  have mb: "(0xff05 :: ushort) \<notin> enumerated_markers"
    by (simp add: marker_sets)
  from hi unenumerated_marker_tests_following_bytes [of ?a 0 "0x1234" 2 "0x1234"]
  have ma: "(0x1234 :: ushort) \<notin> enumerated_markers"
    by blast
  from ra ma unenumerated_marker_tests_following_bytes [of ?a 0 "0x1234" 2 "0x1234"]
  have sa: "ScanStep ?a 0 = Inr (Continue 4)"
    by simp
  from rb mb unenumerated_marker_tests_following_bytes [of ?b 0 "0xff05" 2 "0x1234"]
  have sb: "ScanStep ?b 0 = Inl SyntaxError"
    by simp
  from rc mb unenumerated_marker_tests_following_bytes [of ?c 0 "0xff05" 2 "0x1234"]
  have sc: "ScanStep ?c 0 = Inl EndOfStreamException"
    by simp
  from ra ma sa rb mb sb rc sc hi show ?thesis
    by (intro conjI)
qed

subsection \<open>C10: a second scan with a fresh cursor gives the same bit depth\<close>



end
